theory Spec2Isabelle
  imports Main "HOL-Library.Monad_Syntax"
begin

section \<open>Techniques\<close>

text \<open>
  The dataclass \<open>TimerTechnique\<close> of \<open>pomodoro_app.py\<close>. Python integers are
  unbounded, so the minute fields are \<open>int\<close>. The constructor defaults
  (\<open>long_break_time = 15\<close>, \<open>cycles_before_long_break = 4\<close>, \<open>description = ""\<close>)
  are written out wherever the source relies on them.
\<close>

record TimerTechnique =
  name :: string
  work_time :: int
  break_time :: int
  long_break_time :: int
  cycles_before_long_break :: int
  description :: string

text \<open>The list returned at the end of \<open>load_techniques\<close>.\<close>

definition default_techniques :: "TimerTechnique list" where
  "default_techniques =
     [\<lparr>name = ''Classic Pomodoro'', work_time = 25, break_time = 5,
       long_break_time = 15, cycles_before_long_break = 4,
       description = ''The classic Pomodoro technique with 25-minute work sessions and 5-minute breaks.''\<rparr>,
      \<lparr>name = ''Long Focus'', work_time = 50, break_time = 10,
       long_break_time = 15, cycles_before_long_break = 4,
       description = ''Longer focus sessions with 50-minute work periods and 10-minute breaks.''\<rparr>,
      \<lparr>name = ''Short Burst'', work_time = 15, break_time = 3,
       long_break_time = 15, cycles_before_long_break = 4,
       description = ''Short bursts of intense focus with 15-minute work sessions and 3-minute breaks.''\<rparr>]"

section \<open>The application state\<close>

text \<open>
  \<open>current_phase\<close> is a string in the source; the four values it is ever assigned are
  \<open>"work"\<close>, \<open>"break"\<close>, \<open>"long_break"\<close> and \<open>"ready"\<close>.
\<close>

datatype phase = Work | Break | Long_break | Ready

datatype py_error = IndexError | ZeroDivisionError | OSError

text \<open>
  The attributes of \<open>PomodoroApp\<close> that the timer reads and writes, and the widgets
  whose state the handlers set: the text of \<open>time_display\<close> as (minutes, seconds), the
  phase label \<open>phase_var\<close>, and whether each control button is enabled. \<open>timer_threads\<close> counts the \<open>run_timer\<close>
  threads started, \<open>pending_complete\<close> the \<open>handle_timer_complete\<close> callbacks posted
  with \<open>root.after\<close>, and \<open>notifications\<close> lists the messages \<open>show_notification\<close>
  has shown (newest first). The progress bar holds a float and is left out, except for
  the division that computes it.
\<close>

record app =
  timer_running :: bool
  timer_paused :: bool
  remaining_time :: int
  current_phase :: phase
  completed_cycles :: int
  techniques :: "TimerTechnique list"
  current_technique :: TimerTechnique
  time_display :: "int \<times> int"
  phase_var :: string
  start_button :: bool
  pause_button :: bool
  reset_button :: bool
  timer_threads :: nat
  pending_complete :: nat
  notifications :: "string list"

text \<open>
  A handler either returns the new state, or raises; \<open>Inl (e, s)\<close> is the exception
  together with the state as it had been mutated when the exception left the handler.
\<close>

type_synonym outcome = "(py_error \<times> app) + app"

section \<open>Display\<close>

definition phase_minutes :: "app \<Rightarrow> int" where
  "phase_minutes s =
     (if current_phase s = Work then work_time (current_technique s)
      else if current_phase s = Break then break_time (current_technique s)
      else long_break_time (current_technique s))"

text \<open>
  \<open>update_display\<close>: while running and not paused it shows \<open>divmod(remaining_time, 60)\<close>
  and then divides by \<open>total_seconds\<close> for the progress bar; otherwise it shows the
  work time of the current technique.
\<close>

definition update_display :: "app \<Rightarrow> outcome" where
  "update_display s =
     (if timer_running s \<and> \<not> timer_paused s then
        (let s' = s\<lparr>time_display := (remaining_time s div 60, remaining_time s mod 60)\<rparr>;
             total_seconds = phase_minutes s * 60
         in if total_seconds = 0 then Inl (ZeroDivisionError, s') else Inr s')
      else Inr (s\<lparr>time_display := (work_time (current_technique s), 0)\<rparr>))"

definition displayed_seconds :: "app \<Rightarrow> int" where
  "displayed_seconds s = fst (time_display s) * 60 + snd (time_display s)"

section \<open>Start, pause, reset\<close>

definition start_timer :: "app \<Rightarrow> app" where
  "start_timer s =
     (if timer_running s \<and> timer_paused s then
        s\<lparr>timer_paused := False, start_button := False, pause_button := True\<rparr>
      else
        s\<lparr>timer_running := True, timer_paused := False,
          current_phase := Work,
          remaining_time := work_time (current_technique s) * 60,
          phase_var := ''Work Time'',
          timer_threads := Suc (timer_threads s),
          start_button := False, pause_button := True, reset_button := True\<rparr>)"

definition pause_timer :: "app \<Rightarrow> app" where
  "pause_timer s =
     (if timer_running s \<and> \<not> timer_paused s then
        s\<lparr>timer_paused := True, start_button := True\<rparr>
      else
        s\<lparr>timer_paused := False, start_button := False\<rparr>)"

definition reset_timer :: "app \<Rightarrow> outcome" where
  "reset_timer s =
     update_display
       (s\<lparr>timer_running := False, timer_paused := False,
          current_phase := Ready, completed_cycles := 0,
          phase_var := ''Ready to start'',
          start_button := True, pause_button := False, reset_button := False\<rparr>)"

section \<open>The timer thread\<close>

text \<open>
  One pass through the \<open>while\<close> loop of \<open>run_timer\<close>: the loop condition, and the body.
  The display refresh the body posts with \<open>root.after\<close> runs later on the Tk loop and is
  the separate operation \<open>update_display\<close>.
\<close>

definition run_timer_cond :: "app \<Rightarrow> bool" where
  "run_timer_cond s = (timer_running s \<and> 0 < remaining_time s)"

definition run_timer_body :: "app \<Rightarrow> app" where
  "run_timer_body s =
     (if \<not> timer_paused s then s\<lparr>remaining_time := remaining_time s - 1\<rparr> else s)"

definition tick :: "app \<Rightarrow> app" where
  "tick s = (if run_timer_cond s then run_timer_body s else s)"

text \<open>
  The loop run by one thread with nothing else touching the state. While the timer is
  paused the loop only sleeps and never ends, which is the value \<open>None\<close>.
\<close>

partial_function (option) run_timer_loop :: "app \<Rightarrow> app option" where
  "run_timer_loop s =
     (if run_timer_cond s then run_timer_loop (run_timer_body s) else Some s)"

text \<open>After the loop: \<open>if self.timer_running: self.root.after(0, self.handle_timer_complete)\<close>.\<close>

definition run_timer_exit :: "app \<Rightarrow> app" where
  "run_timer_exit s =
     (if timer_running s then s\<lparr>pending_complete := Suc (pending_complete s)\<rparr> else s)"

definition run_timer :: "app \<Rightarrow> app option" where
  "run_timer s = map_option run_timer_exit (run_timer_loop s)"

section \<open>Phase completion\<close>

definition notification_message :: "phase \<Rightarrow> string" where
  "notification_message p =
     (if p = Work then ''Work period complete! Time for a break.''
      else if p = Break then ''Break time complete! Back to work.''
      else ''Long break complete! Time to get back to work.'')"

definition show_notification :: "app \<Rightarrow> app" where
  "show_notification s =
     s\<lparr>notifications := notification_message (current_phase s) # notifications s\<rparr>"

text \<open>
  \<open>handle_timer_complete\<close>. Python's \<open>%\<close> raises on a zero divisor, after
  \<open>completed_cycles\<close> has been incremented; for a non-zero divisor it is the floored
  remainder, which is \<open>mod\<close> on \<open>int\<close>. The handler ends by starting a new \<open>run_timer\<close>
  thread.
\<close>

definition handle_timer_complete :: "app \<Rightarrow> outcome" where
  "handle_timer_complete s0 =
     (let s = show_notification s0; t = current_technique s in
      if current_phase s = Work then
        (let s1 = s\<lparr>completed_cycles := completed_cycles s + 1\<rparr> in
         if cycles_before_long_break t = 0 then Inl (ZeroDivisionError, s1)
         else if completed_cycles s1 mod cycles_before_long_break t = 0 then
           Inr (s1\<lparr>current_phase := Long_break,
                   remaining_time := long_break_time t * 60,
                   phase_var := ''Long Break'',
                   timer_threads := Suc (timer_threads s1)\<rparr>)
         else
           Inr (s1\<lparr>current_phase := Break,
                   remaining_time := break_time t * 60,
                   phase_var := ''Break Time'',
                   timer_threads := Suc (timer_threads s1)\<rparr>))
      else
        Inr (s\<lparr>current_phase := Work,
                remaining_time := work_time t * 60,
                phase_var := ''Work Time'',
                timer_threads := Suc (timer_threads s)\<rparr>))"

section \<open>Choosing a technique\<close>

text \<open>\<open>on_technique_changed\<close>: the first technique with the selected name becomes current.\<close>

definition on_technique_changed :: "string \<Rightarrow> app \<Rightarrow> outcome" where
  "on_technique_changed selected_name s =
     (case find (\<lambda>t. name t = selected_name) (techniques s) of
        None \<Rightarrow> Inr s
      | Some t \<Rightarrow> update_display (s\<lparr>current_technique := t\<rparr>))"

section \<open>The techniques file\<close>

text \<open>
  What \<open>json.load\<close> returns: the Python value of a JSON document. A dict is the list
  of its items in order, each key once; \<open>map_of\<close> is the lookup. Floats are left out.
\<close>

datatype json =
    JNull
  | JBool bool
  | JInt int
  | JStr string
  | JArr "json list"
  | JObj "(string \<times> json) list"

text \<open>
  The content of \<open>techniques.json\<close>: a complete JSON document, or bytes that
  \<open>open\<close> or \<open>json.load\<close> fail on (an unreadable, empty, truncated or otherwise
  malformed file). The disk is whether the configuration directory exists, and the
  file when it exists.
\<close>

datatype file_content = Json json | Garbled

record disk =
  config_dir :: bool
  config_file :: "file_content option"

subsection \<open>Saving\<close>

definition technique_json :: "TimerTechnique \<Rightarrow> json" where
  "technique_json technique =
     JObj [(''name'', JStr (name technique)),
           (''work_time'', JInt (work_time technique)),
           (''break_time'', JInt (break_time technique)),
           (''long_break_time'', JInt (long_break_time technique)),
           (''cycles_before_long_break'', JInt (cycles_before_long_break technique)),
           (''description'', JStr (description technique))]"

text \<open>
  What the operating system does to one call of \<open>save_techniques\<close> is a parameter:
  nothing fails, \<open>os.makedirs\<close> raises, \<open>open(config_file, 'w')\<close> raises, or the write
  of \<open>json.dump\<close> raises after the file has been opened. Opening with mode \<open>'w'\<close>
  truncates the file, so a failed write leaves a strict prefix of the document.
  \<open>os.makedirs\<close> stands outside the \<open>try\<close>: its exception leaves the method. The
  other two are caught and shown in an error dialog; the Boolean of the result says
  whether that dialog was shown.
\<close>

datatype io_fault = Makedirs_fails | Open_fails | Write_fails

definition save_techniques ::
  "io_fault option \<Rightarrow> TimerTechnique list \<Rightarrow> disk \<Rightarrow> py_error + (bool \<times> disk)" where
  "save_techniques io ts d =
     (if io = Some Makedirs_fails then Inl OSError
      else
        (let d1 = d\<lparr>config_dir := True\<rparr>;
             techniques_data = JArr (map technique_json ts)
         in if io = Some Open_fails then Inr (True, d1)
            else if io = Some Write_fails then Inr (True, d1\<lparr>config_file := Some Garbled\<rparr>)
            else Inr (False, d1\<lparr>config_file := Some (Json techniques_data)\<rparr>)))"

subsection \<open>Loading\<close>

text \<open>
  Python does not check the annotations of a dataclass: \<open>load_techniques\<close> stores
  whatever value the file has under a key. A record whose fields have the annotated
  types is built here; a value of another type under one of the six keys is the result
  \<open>Ill_typed\<close> (no exception in the source, and an object outside the typed record).
  \<open>Raises\<close> is an exception of \<open>t_data["..."]\<close>: \<open>t_data\<close> is not a dict, or a required
  key is missing.
\<close>

fun as_int :: "json \<Rightarrow> int option" where
  "as_int (JInt n) = Some n"
| "as_int _ = None"

fun as_str :: "json \<Rightarrow> string option" where
  "as_str (JStr s) = Some s"
| "as_str _ = None"

definition dict_get :: "(string \<times> json) list \<Rightarrow> string \<Rightarrow> json \<Rightarrow> json" where
  "dict_get kvs k dflt = (case map_of kvs k of None \<Rightarrow> dflt | Some v \<Rightarrow> v)"

datatype built = Raises | Ill_typed | Built TimerTechnique

definition typed_technique ::
  "json \<Rightarrow> json \<Rightarrow> json \<Rightarrow> json \<Rightarrow> json \<Rightarrow> json \<Rightarrow> TimerTechnique option" where
  "typed_technique n w b l c d =
     do { n' \<leftarrow> as_str n; w' \<leftarrow> as_int w; b' \<leftarrow> as_int b;
          l' \<leftarrow> as_int l; c' \<leftarrow> as_int c; d' \<leftarrow> as_str d;
          Some \<lparr>name = n', work_time = w', break_time = b', long_break_time = l',
                cycles_before_long_break = c', description = d'\<rparr> }"

fun technique_of_json :: "json \<Rightarrow> built" where
  "technique_of_json (JObj kvs) =
     (case map_of kvs ''name'' of None \<Rightarrow> Raises | Some n \<Rightarrow>
     (case map_of kvs ''work_time'' of None \<Rightarrow> Raises | Some w \<Rightarrow>
     (case map_of kvs ''break_time'' of None \<Rightarrow> Raises | Some b \<Rightarrow>
     (case typed_technique n w b
             (dict_get kvs ''long_break_time'' (JInt 15))
             (dict_get kvs ''cycles_before_long_break'' (JInt 4))
             (dict_get kvs ''description'' (JStr []))
      of None \<Rightarrow> Ill_typed | Some t \<Rightarrow> Built t))))"
| "technique_of_json _ = Raises"

text \<open>
  \<open>for t_data in techniques_data\<close>: a list yields its elements, a dict its keys, a string
  its characters; any other value is not iterable (\<open>None\<close>: a \<open>TypeError\<close>).
\<close>

fun iter_items :: "json \<Rightarrow> json list option" where
  "iter_items (JArr xs) = Some xs"
| "iter_items (JObj kvs) = Some (map (\<lambda>kv. JStr (fst kv)) kvs)"
| "iter_items (JStr s) = Some (map (\<lambda>c. JStr [c]) s)"
| "iter_items _ = None"

datatype loaded = Exception | Untyped_list | Loaded "TimerTechnique list"

text \<open>The loop that appends one technique per item; an exception ends it.\<close>

fun load_loop :: "json list \<Rightarrow> loaded" where
  "load_loop [] = Loaded []"
| "load_loop (t_data # rest) =
     (case technique_of_json t_data of
        Raises \<Rightarrow> Exception
      | Ill_typed \<Rightarrow> (case load_loop rest of Exception \<Rightarrow> Exception | _ \<Rightarrow> Untyped_list)
      | Built t \<Rightarrow> (case load_loop rest of Loaded ts \<Rightarrow> Loaded (t # ts) | r \<Rightarrow> r))"

text \<open>
  \<open>load_techniques\<close> returns a list in every case; \<open>Returned shown ts\<close> is the list
  \<open>ts\<close>, with \<open>shown\<close> telling whether the error dialog of the \<open>except\<close> branch was
  shown on the way. \<open>Untyped\<close> is a returned list holding an ill-typed object.
\<close>

datatype load_outcome = Returned bool "TimerTechnique list" | Untyped

definition load_techniques :: "disk \<Rightarrow> load_outcome" where
  "load_techniques d =
     (case config_file d of
        None \<Rightarrow> Returned False default_techniques
      | Some Garbled \<Rightarrow> Returned True default_techniques
      | Some (Json techniques_data) \<Rightarrow>
          (case iter_items techniques_data of
             None \<Rightarrow> Returned True default_techniques
           | Some items \<Rightarrow>
               (case load_loop items of
                  Exception \<Rightarrow> Returned True default_techniques
                | Untyped_list \<Rightarrow> Untyped
                | Loaded ts \<Rightarrow> Returned False ts)))"

section \<open>Start-up\<close>

text \<open>
  \<open>__init__\<close>, given the list \<open>load_techniques\<close> returned: \<open>self.techniques[0]\<close> raises on
  an empty list; \<open>create_widgets\<close> leaves Start enabled, Pause and Reset disabled, and
  ends with \<open>update_display\<close>.
\<close>

definition init_app :: "TimerTechnique list \<Rightarrow> py_error + app" where
  "init_app ts =
     (case ts of
        [] \<Rightarrow> Inl IndexError
      | t # _ \<Rightarrow>
          (case update_display
                  \<lparr>timer_running = False, timer_paused = False, remaining_time = 0,
                   current_phase = Work, completed_cycles = 0,
                   techniques = ts, current_technique = t,
                   time_display = (25, 0), phase_var = ''Ready to start'',
                   start_button = True, pause_button = False, reset_button = False,
                   timer_threads = 0, pending_complete = 0, notifications = []\<rparr>
           of Inl (e, _) \<Rightarrow> Inl e | Inr s \<Rightarrow> Inr s))"

definition startup :: "disk \<Rightarrow> (py_error + app) option" where
  "startup d =
     (case load_techniques d of
        Untyped \<Rightarrow> None
      | Returned _ ts \<Rightarrow> Some (init_app ts))"

section \<open>Editing the list of techniques\<close>

text \<open>One entry of \<open>technique_frames\<close> in the edit dialog: the form variables and the mark.\<close>

record frame =
  name_var :: string
  work_var :: int
  break_var :: int
  long_break_var :: int
  cycles_var :: int
  desc_var :: string
  deleted :: bool

definition remaining_frames :: "frame list \<Rightarrow> frame list" where
  "remaining_frames technique_frames = filter (\<lambda>f. \<not> deleted f) technique_frames"

text \<open>
  \<open>delete_technique_frame\<close>: the Boolean of the result says whether the error dialog
  "You must have at least one technique." was shown. The index comes from
  \<open>enumerate\<close>, so it is a natural number; past the end the subscript raises.
\<close>

definition delete_technique_frame ::
  "nat \<Rightarrow> frame list \<Rightarrow> py_error + (bool \<times> frame list)" where
  "delete_technique_frame idx technique_frames =
     (if length (remaining_frames technique_frames) \<le> 1 then Inr (True, technique_frames)
      else if idx < length technique_frames then
        Inr (False, technique_frames[idx := (technique_frames ! idx)\<lparr>deleted := True\<rparr>])
      else Inl IndexError)"

text \<open>The list \<open>save_technique_changes\<close> builds and assigns to \<open>self.techniques\<close>.\<close>

definition frame_technique :: "frame \<Rightarrow> TimerTechnique" where
  "frame_technique frame_data =
     \<lparr>name = name_var frame_data, work_time = work_var frame_data,
      break_time = break_var frame_data, long_break_time = long_break_var frame_data,
      cycles_before_long_break = cycles_var frame_data,
      description = desc_var frame_data\<rparr>"

definition updated_techniques :: "frame list \<Rightarrow> TimerTechnique list" where
  "updated_techniques technique_frames =
     map frame_technique (remaining_frames technique_frames)"

text \<open>The frames \<open>edit_techniques\<close> creates, one per technique, none marked.\<close>

definition technique_frame :: "TimerTechnique \<Rightarrow> frame" where
  "technique_frame technique =
     \<lparr>name_var = name technique, work_var = work_time technique,
      break_var = break_time technique, long_break_var = long_break_time technique,
      cycles_var = cycles_before_long_break technique,
      desc_var = description technique, deleted = False\<rparr>"

definition edit_techniques :: "TimerTechnique list \<Rightarrow> frame list" where
  "edit_techniques ts = map technique_frame ts"

text \<open>The list after \<open>save_new_technique\<close> has appended the new technique.\<close>

definition save_new_technique :: "TimerTechnique \<Rightarrow> TimerTechnique list \<Rightarrow> TimerTechnique list" where
  "save_new_technique technique ts = ts @ [technique]"

section \<open>Runs of the application\<close>

text \<open>The state \<open>__init__\<close> builds from the default techniques.\<close>

definition fresh_app :: app where
  "fresh_app =
     \<lparr>timer_running = False, timer_paused = False, remaining_time = 0,
      current_phase = Work, completed_cycles = 0,
      techniques = default_techniques, current_technique = hd default_techniques,
      time_display = (25, 0), phase_var = ''Ready to start'',
      start_button = True, pause_button = False, reset_button = False,
      timer_threads = 0, pending_complete = 0, notifications = []\<rparr>"

text \<open>The state a handler leaves behind, whether it returned or raised.\<close>

fun final_state :: "outcome \<Rightarrow> app" where
  "final_state (Inl (e, s)) = s"
| "final_state (Inr s) = s"

text \<open>
  A set that holds every state the application can be in. It is closed under start-up
  from any list of techniques, under each handler of the Tk thread run to its end,
  under the stores of the timer threads, and under edits of the techniques. The timer
  threads are not synchronised with each other or with the handlers, so a thread may
  store into \<open>remaining_time\<close> a value computed from a read that is no longer
  current: every store is admitted, and so is every count of posted callbacks. The set
  is therefore larger than what one run produces; it serves properties of the flags and
  buttons, which only the handlers write. Single runs with their timer threads are the
  subject of \<open>exec\<close> below.
\<close>

inductive reachable :: "app \<Rightarrow> bool" where
  created: "init_app ts = Inr s \<Longrightarrow> reachable s"
| started: "reachable s \<Longrightarrow> reachable (start_timer s)"
| paused: "reachable s \<Longrightarrow> reachable (pause_timer s)"
| was_reset: "reachable s \<Longrightarrow> reachable (final_state (reset_timer s))"
| ticked: "reachable s \<Longrightarrow> reachable (tick s)"
| exited: "reachable s \<Longrightarrow> reachable (run_timer_exit s)"
| stored: "reachable s \<Longrightarrow> reachable (s\<lparr>remaining_time := v\<rparr>)"
| posted: "reachable s \<Longrightarrow> reachable (s\<lparr>pending_complete := n\<rparr>)"
| completed: "reachable s \<Longrightarrow> reachable (final_state (handle_timer_complete s))"
| refreshed: "reachable s \<Longrightarrow> reachable (final_state (update_display s))"
| selected: "reachable s \<Longrightarrow> reachable (final_state (on_technique_changed nm s))"
| edited: "reachable s \<Longrightarrow> reachable (s\<lparr>techniques := ts, current_technique := t\<rparr>)"

text \<open>The guard of the Start button: it is disabled while the timer runs unpaused.\<close>

definition app_inv :: "app \<Rightarrow> bool" where
  "app_inv s = (\<not> start_button s \<or> \<not> timer_running s \<or> timer_paused s)"

text \<open>
  Two states of the sample run from the default techniques: in the first break, after
  the 1500 seconds of the first Work phase; and paused, one second into the first
  Work phase.
\<close>

definition on_break :: app where
  "on_break = final_state (handle_timer_complete ((tick ^^ 1500) (start_timer fresh_app)))"

definition paused_app :: app where
  "paused_app = pause_timer (tick (start_timer fresh_app))"

text \<open>
  A disk holding the saved default techniques, and a record of a techniques file
  that has only the three required keys.
\<close>

definition saved_defaults :: disk where
  "saved_defaults =
     \<lparr>config_dir = True,
      config_file = Some (Json (JArr (map technique_json default_techniques)))\<rparr>"

definition short_record :: "(string \<times> json) list" where
  "short_record = [(''name'', JStr ''Deep''), (''work_time'', JInt 90), (''break_time'', JInt 20)]"

section \<open>Single runs with their timer threads\<close>

text \<open>
  Where a \<open>run_timer\<close> thread stands: at the test of the \<open>while\<close> loop; inside the
  loop, the test passed; behind the loop, at \<open>if self.timer_running\<close>; or at its end.
\<close>

datatype pc = At_test | In_body | After_loop | Finished

text \<open>
  One step of one thread. The sleep that ends a pass of the loop changes nothing and
  leads back to the test.
\<close>

fun thread_step :: "pc \<Rightarrow> app \<Rightarrow> pc \<times> app" where
  "thread_step At_test s = (if run_timer_cond s then In_body else After_loop, s)"
| "thread_step In_body s = (At_test, run_timer_body s)"
| "thread_step After_loop s = (Finished, run_timer_exit s)"
| "thread_step Finished s = (Finished, s)"

text \<open>
  The application together with its timer threads, in the order they were started.
  A handler that starts a thread (it raises \<open>timer_threads\<close>) adds one at the test.
\<close>

record machine =
  app_state :: app
  loops :: "pc list"

definition after_handler :: "app \<Rightarrow> machine \<Rightarrow> machine" where
  "after_handler s' c =
     \<lparr>app_state = s',
      loops = loops c @ replicate (timer_threads s' - timer_threads (app_state c)) At_test\<rparr>"

text \<open>
  What can happen next: the user presses a button (a disabled button ignores the
  press), thread \<open>i\<close> takes a step, or the Tk loop runs one posted
  \<open>handle_timer_complete\<close>. Each handler runs to its end.
\<close>

datatype event = Press_start | Press_pause | Press_reset | Thread_step nat | Run_callback

fun exec :: "event \<Rightarrow> machine \<Rightarrow> machine" where
  "exec Press_start c =
     (if start_button (app_state c) then after_handler (start_timer (app_state c)) c else c)"
| "exec Press_pause c =
     (if pause_button (app_state c) then after_handler (pause_timer (app_state c)) c else c)"
| "exec Press_reset c =
     (if reset_button (app_state c)
      then after_handler (final_state (reset_timer (app_state c))) c else c)"
| "exec (Thread_step i) c =
     (if i < length (loops c) then
        (case thread_step (loops c ! i) (app_state c) of
           (p, s') \<Rightarrow> \<lparr>app_state = s', loops = (loops c)[i := p]\<rparr>)
      else c)"
| "exec Run_callback c =
     (if pending_complete (app_state c) = 0 then c
      else after_handler
             (final_state (handle_timer_complete
                ((app_state c)\<lparr>pending_complete := pending_complete (app_state c) - 1\<rparr>))) c)"

definition run :: "event list \<Rightarrow> machine \<Rightarrow> machine" where
  "run evs c = fold exec evs c"

text \<open>
  The run that starts the timer, resets it while the first thread sleeps after its
  first decrement, and starts it again; then both threads count down in turn.
\<close>

definition boot :: machine where
  "boot = \<lparr>app_state = fresh_app, loops = []\<rparr>"

definition restart :: "event list" where
  "restart = [Press_start, Thread_step 0, Thread_step 0, Press_reset, Press_start]"

definition both_tick :: "event list" where
  "both_tick = [Thread_step 0, Thread_step 0, Thread_step 1, Thread_step 1]"

definition both_leave :: "event list" where
  "both_leave = [Thread_step 0, Thread_step 1, Thread_step 0, Thread_step 1]"

definition double_completion :: "event list" where
  "double_completion = restart @ concat (replicate 750 both_tick) @ both_leave"

definition below_zero :: "event list" where
  "below_zero =
     restart @ concat (replicate 749 both_tick) @ [Thread_step 0, Thread_step 0] @
     [Thread_step 0, Thread_step 1, Thread_step 0, Thread_step 1]"

text \<open>What the timer shows of its state: label, flags, cycle count and displayed seconds.\<close>

definition idle_view :: "app \<Rightarrow> string \<times> bool \<times> bool \<times> int \<times> int" where
  "idle_view s =
     (phase_var s, timer_running s, timer_paused s, completed_cycles s, displayed_seconds s)"

section \<open>Start-up and the sample run\<close>

lemma init_app_default: "init_app default_techniques = Inr fresh_app"
  by (simp add: init_app_def default_techniques_def update_display_def fresh_app_def)

lemma reachable_fresh_app: "reachable fresh_app"
  using init_app_default by (rule reachable.created)

lemma init_app_Inr:
  assumes "init_app ts = Inr s"
  shows "\<exists>t rest. ts = t # rest \<and>
     s = \<lparr>timer_running = False, timer_paused = False, remaining_time = 0,
          current_phase = Work, completed_cycles = 0,
          techniques = ts, current_technique = t,
          time_display = (work_time t, 0), phase_var = ''Ready to start'',
          start_button = True, pause_button = False, reset_button = False,
          timer_threads = 0, pending_complete = 0, notifications = []\<rparr>"
  using assms by (cases ts) (auto simp: init_app_def update_display_def)

section \<open>The timer loop\<close>

lemma tick_running:
  "timer_running s \<Longrightarrow> \<not> timer_paused s \<Longrightarrow> 0 < remaining_time s \<Longrightarrow>
   tick s = s\<lparr>remaining_time := remaining_time s - 1\<rparr>"
  by (simp add: tick_def run_timer_cond_def run_timer_body_def)

lemma ticks_running:
  "timer_running s \<Longrightarrow> \<not> timer_paused s \<Longrightarrow> int n \<le> remaining_time s \<Longrightarrow>
   (tick ^^ n) s = s\<lparr>remaining_time := remaining_time s - int n\<rparr>"
proof (induction n)
  case 0
  then show ?case by simp
next
  case (Suc n)
  then have "(tick ^^ n) s = s\<lparr>remaining_time := remaining_time s - int n\<rparr>" by simp
  with Suc.prems show ?case by (simp add: tick_running)
qed

lemma tick_paused: "timer_paused s \<Longrightarrow> tick s = s"
  by (simp add: tick_def run_timer_body_def)

lemma ticks_paused: "timer_paused s \<Longrightarrow> (tick ^^ n) s = s"
  by (induction n) (simp_all add: tick_paused)

lemma run_timer_loop_counts:
  "timer_running s \<Longrightarrow> \<not> timer_paused s \<Longrightarrow> remaining_time s = int n \<Longrightarrow>
   run_timer_loop s = Some (s\<lparr>remaining_time := 0\<rparr>)"
proof (induction n arbitrary: s)
  case 0
  then show ?case
    by (subst run_timer_loop.simps) (simp add: run_timer_cond_def)
next
  case (Suc n)
  let ?s = "s\<lparr>remaining_time := remaining_time s - 1\<rparr>"
  from Suc.prems have "run_timer_loop ?s = Some (?s\<lparr>remaining_time := 0\<rparr>)"
    by (intro Suc.IH) simp_all
  with Suc.prems show ?case
    by (subst run_timer_loop.simps) (simp add: run_timer_cond_def run_timer_body_def)
qed

lemma run_timer_loop_returns:
  assumes "run_timer_loop s = Some y"
  shows "\<not> (timer_running s \<and> timer_paused s \<and> 0 < remaining_time s)"
proof (rule run_timer_loop.raw_induct
    [where P = "\<lambda>s y. \<not> (timer_running s \<and> timer_paused s \<and> 0 < remaining_time s)"])
  show "run_timer_loop s = Some y" by (rule assms)
next
  fix f s y
  assume IH: "\<And>s y. f s = Some y \<Longrightarrow>
                \<not> (timer_running s \<and> timer_paused s \<and> 0 < remaining_time s)"
    and step: "(if run_timer_cond s then f (run_timer_body s) else Some s) = Some y"
  show "\<not> (timer_running s \<and> timer_paused s \<and> 0 < remaining_time s)"
  proof
    assume p: "timer_running s \<and> timer_paused s \<and> 0 < remaining_time s"
    then have "f s = Some y"
      using step by (simp add: run_timer_cond_def run_timer_body_def)
    from IH [OF this] p show False by simp
  qed
qed

lemma run_timer_loop_paused:
  "timer_running s \<Longrightarrow> timer_paused s \<Longrightarrow> 0 < remaining_time s \<Longrightarrow> run_timer_loop s = None"
  using run_timer_loop_returns [of s] by (cases "run_timer_loop s") auto

lemma run_timer_loop_stopped:
  "\<not> timer_running s \<Longrightarrow> run_timer_loop s = Some s"
  by (subst run_timer_loop.simps) (simp add: run_timer_cond_def)

lemma run_timer_counts:
  assumes "timer_running s" "\<not> timer_paused s" "0 \<le> remaining_time s"
  shows "run_timer s =
         Some (s\<lparr>remaining_time := 0, pending_complete := Suc (pending_complete s)\<rparr>)"
proof -
  from assms(3) obtain n where "remaining_time s = int n"
    using nonneg_int_cases by blast
  with assms have "run_timer_loop s = Some (s\<lparr>remaining_time := 0\<rparr>)"
    by (simp add: run_timer_loop_counts)
  with assms show ?thesis by (simp add: run_timer_def run_timer_exit_def)
qed

lemma running_state:
  "start_timer fresh_app =
     fresh_app\<lparr>timer_running := True, remaining_time := 1500,
               phase_var := ''Work Time'', timer_threads := 1,
               start_button := False, pause_button := True, reset_button := True\<rparr>"
  by (simp add: start_timer_def fresh_app_def default_techniques_def)

section \<open>Flags\<close>

lemma update_display_flags:
  "timer_running (final_state (update_display s)) = timer_running s"
  "timer_paused (final_state (update_display s)) = timer_paused s"
  by (simp_all add: update_display_def Let_def)

lemma handle_timer_complete_flags:
  "timer_running (final_state (handle_timer_complete s)) = timer_running s"
  "timer_paused (final_state (handle_timer_complete s)) = timer_paused s"
  by (simp_all add: handle_timer_complete_def show_notification_def Let_def)

lemma on_technique_changed_flags:
  "timer_running (final_state (on_technique_changed nm s)) = timer_running s"
  "timer_paused (final_state (on_technique_changed nm s)) = timer_paused s"
  by (simp_all add: on_technique_changed_def update_display_flags split: option.split)

lemma update_display_start_button:
  "start_button (final_state (update_display s)) = start_button s"
  by (simp add: update_display_def Let_def)

lemma handle_timer_complete_start_button:
  "start_button (final_state (handle_timer_complete s)) = start_button s"
  by (simp add: handle_timer_complete_def show_notification_def Let_def)

lemma on_technique_changed_start_button:
  "start_button (final_state (on_technique_changed nm s)) = start_button s"
  by (simp add: on_technique_changed_def update_display_start_button split: option.split)

lemma reachable_paused_running: "reachable s \<Longrightarrow> timer_paused s \<longrightarrow> timer_running s"
proof (induction rule: reachable.induct)
  case (created ts s)
  from init_app_Inr [OF created(1)] show ?case by (auto)
next
  case (started s)
  then show ?case by (auto simp: start_timer_def)
next
  case (paused s)
  then show ?case by (auto simp: pause_timer_def)
next
  case (was_reset s)
  then show ?case
    by (simp add: reset_timer_def update_display_flags update_display_start_button)
next
  case (ticked s)
  then show ?case by (auto simp: tick_def run_timer_body_def)
next
  case (exited s)
  then show ?case by (auto simp: run_timer_exit_def)
next
  case (stored s v)
  then show ?case by (simp)
next
  case (posted s n)
  then show ?case by (simp)
next
  case (completed s)
  then show ?case
    by (simp add: handle_timer_complete_flags handle_timer_complete_start_button)
next
  case (refreshed s)
  then show ?case by (simp add: update_display_flags update_display_start_button)
next
  case (selected s nm)
  then show ?case
    by (simp add: on_technique_changed_flags on_technique_changed_start_button)
next
  case (edited s ts t)
  then show ?case by (simp)
qed

lemma reachable_app_inv: "reachable s \<Longrightarrow> app_inv s"
proof (induction rule: reachable.induct)
  case (created ts s)
  from init_app_Inr [OF created(1)] show ?case by (auto simp: app_inv_def)
next
  case (started s)
  then show ?case by (auto simp: start_timer_def app_inv_def)
next
  case (paused s)
  then show ?case by (auto simp: pause_timer_def app_inv_def)
next
  case (was_reset s)
  then show ?case
    by (simp add: reset_timer_def update_display_flags update_display_start_button app_inv_def)
next
  case (ticked s)
  then show ?case by (auto simp: tick_def run_timer_body_def app_inv_def)
next
  case (exited s)
  then show ?case by (auto simp: run_timer_exit_def app_inv_def)
next
  case (stored s v)
  then show ?case by (simp add: app_inv_def)
next
  case (posted s n)
  then show ?case by (simp add: app_inv_def)
next
  case (completed s)
  then show ?case
    by (simp add: handle_timer_complete_flags handle_timer_complete_start_button app_inv_def)
next
  case (refreshed s)
  then show ?case by (simp add: update_display_flags update_display_start_button app_inv_def)
next
  case (selected s nm)
  then show ?case
    by (simp add: on_technique_changed_flags on_technique_changed_start_button app_inv_def)
next
  case (edited s ts t)
  then show ?case by (simp add: app_inv_def)
qed

section \<open>The sample run\<close>

lemma reachable_ticks: "reachable s \<Longrightarrow> reachable ((tick ^^ n) s)"
  by (induction n) (simp_all add: reachable.ticked)

lemma fresh_app_sel:
  "timer_running fresh_app = False" "timer_paused fresh_app = False"
  "remaining_time fresh_app = 0" "current_phase fresh_app = Work"
  "completed_cycles fresh_app = 0" "current_technique fresh_app = hd default_techniques"
  "timer_threads fresh_app = 0" "pending_complete fresh_app = 0"
  "notifications fresh_app = []" "start_button fresh_app = True"
  "pause_button fresh_app = False" "reset_button fresh_app = False"
  "phase_var fresh_app = ''Ready to start''" "time_display fresh_app = (25, 0)"
  by (simp_all add: fresh_app_def)

lemma default_head:
  "work_time (hd default_techniques) = 25" "break_time (hd default_techniques) = 5"
  "long_break_time (hd default_techniques) = 15"
  "cycles_before_long_break (hd default_techniques) = 4"
  by (simp_all add: default_techniques_def)

lemma first_work_phase_over:
  "(tick ^^ 1500) (start_timer fresh_app) = (start_timer fresh_app)\<lparr>remaining_time := 0\<rparr>"
proof -
  have "(tick ^^ 1500) (start_timer fresh_app) =
        (start_timer fresh_app)\<lparr>remaining_time := remaining_time (start_timer fresh_app) - int 1500\<rparr>"
    by (rule ticks_running) (simp_all add: running_state fresh_app_sel)
  then show ?thesis by (simp add: running_state)
qed

lemma on_break_state:
  "on_break =
     fresh_app\<lparr>timer_running := True, remaining_time := 300, current_phase := Break,
               completed_cycles := 1, phase_var := ''Break Time'', timer_threads := 2,
               start_button := False, pause_button := True, reset_button := True,
               notifications := [''Work period complete! Time for a break.'']\<rparr>"
  unfolding on_break_def first_work_phase_over
  by (simp add: running_state handle_timer_complete_def
      show_notification_def notification_message_def Let_def fresh_app_sel default_head)

lemma reachable_on_break: "reachable on_break"
  unfolding on_break_def
  by (intro reachable.completed reachable_ticks reachable.started reachable_fresh_app)

lemma paused_app_state:
  "paused_app =
     fresh_app\<lparr>timer_running := True, timer_paused := True, remaining_time := 1499,
               phase_var := ''Work Time'', timer_threads := 1,
               start_button := True, pause_button := True, reset_button := True\<rparr>"
  by (simp add: paused_app_def running_state tick_def run_timer_cond_def run_timer_body_def
      pause_timer_def fresh_app_sel)

lemma reachable_paused_app: "reachable paused_app"
  unfolding paused_app_def
  by (intro reachable.paused reachable.ticked reachable.started reachable_fresh_app)

section \<open>Loading and saving\<close>

lemma technique_of_technique_json: "technique_of_json (technique_json t) = Built t"
  by (simp add: technique_json_def typed_technique_def dict_get_def)

lemma load_loop_technique_json: "load_loop (map technique_json ts) = Loaded ts"
  by (induction ts) (simp_all add: technique_of_technique_json)

lemma load_loop_Loaded:
  "load_loop items = Loaded ts \<Longrightarrow>
   list_all2 (\<lambda>t_data t. technique_of_json t_data = Built t) items ts"
proof (induction items arbitrary: ts)
  case Nil
  then show ?case by simp
next
  case (Cons t_data rest)
  then show ?case
    by (auto split: built.splits loaded.splits)
qed

lemma technique_of_json_defaults:
  assumes "technique_of_json (JObj kvs) = Built t"
  shows "(map_of kvs ''long_break_time'' = None \<longrightarrow> long_break_time t = 15) \<and>
         (map_of kvs ''cycles_before_long_break'' = None \<longrightarrow> cycles_before_long_break t = 4) \<and>
         (map_of kvs ''description'' = None \<longrightarrow> description t = [])"
proof -
  from assms obtain n w b where
    t: "typed_technique n w b
          (dict_get kvs ''long_break_time'' (JInt 15))
          (dict_get kvs ''cycles_before_long_break'' (JInt 4))
          (dict_get kvs ''description'' (JStr [])) = Some t"
    by (auto split: option.splits)
  then obtain l c d where
    "as_int (dict_get kvs ''long_break_time'' (JInt 15)) = Some l"
    "as_int (dict_get kvs ''cycles_before_long_break'' (JInt 4)) = Some c"
    "as_str (dict_get kvs ''description'' (JStr [])) = Some d"
    "long_break_time t = l" "cycles_before_long_break t = c" "description t = d"
    by (auto simp: typed_technique_def split: Option.bind_splits)
  then show ?thesis by (auto simp: dict_get_def)
qed

lemma default_techniques_table:
  "map (\<lambda>t. (name t, work_time t, break_time t, long_break_time t, cycles_before_long_break t))
     default_techniques =
   [(''Classic Pomodoro'', 25, 5, 15, 4), (''Long Focus'', 50, 10, 15, 4),
    (''Short Burst'', 15, 3, 15, 4)]"
  by (simp add: default_techniques_def)

lemma default_techniques_described:
  "list_all (\<lambda>t. description t \<noteq> []) default_techniques"
  by (simp add: default_techniques_def)

lemma short_record_built:
  "technique_of_json (JObj short_record) =
     Built \<lparr>name = ''Deep'', work_time = 90, break_time = 20, long_break_time = 15,
            cycles_before_long_break = 4, description = []\<rparr>"
  by (simp add: short_record_def typed_technique_def dict_get_def)

lemma short_record_keys:
  "map_of short_record ''long_break_time'' = None"
  "map_of short_record ''cycles_before_long_break'' = None"
  "map_of short_record ''description'' = None"
  by (simp_all add: short_record_def)

section \<open>The edit dialog keeps a technique\<close>

lemma filter_update_length:
  "length (filter P xs) \<le> Suc (length (filter P (xs[i := y])))"
  by (induction xs arbitrary: i) (auto split: nat.splits)

lemma delete_last_rejected:
  "length (remaining_frames technique_frames) \<le> 1 \<Longrightarrow>
   delete_technique_frame idx technique_frames = Inr (True, technique_frames)"
  by (simp add: delete_technique_frame_def)

lemma delete_keeps_one:
  assumes "delete_technique_frame idx technique_frames = Inr (shown, frames')"
    and "remaining_frames technique_frames \<noteq> []"
  shows "remaining_frames frames' \<noteq> []"
proof (cases "length (remaining_frames technique_frames) \<le> 1")
  case True
  with assms show ?thesis by (simp add: delete_technique_frame_def)
next
  case False
  with assms(1) have f: "frames' =
      technique_frames[idx := (technique_frames ! idx)\<lparr>deleted := True\<rparr>]"
    by (simp add: delete_technique_frame_def split: if_splits)
  from False have "2 \<le> length (remaining_frames technique_frames)" by simp
  also have "\<dots> \<le> Suc (length (remaining_frames frames'))"
    unfolding f remaining_frames_def by (rule filter_update_length)
  finally show ?thesis by auto
qed

lemma frame_technique_technique_frame: "frame_technique (technique_frame t) = t"
  by (simp add: frame_technique_def technique_frame_def)

lemma technique_frame_kept: "\<not> deleted (technique_frame t)"
  by (simp add: technique_frame_def)

lemma updated_techniques_edit_techniques: "updated_techniques (edit_techniques ts) = ts"
  by (induction ts)
     (simp_all add: updated_techniques_def edit_techniques_def remaining_frames_def
       frame_technique_technique_frame technique_frame_kept)

lemma updated_techniques_nonempty:
  "remaining_frames technique_frames \<noteq> [] \<Longrightarrow> updated_techniques technique_frames \<noteq> []"
  by (simp add: updated_techniques_def)

lemma save_new_technique_nonempty: "save_new_technique technique ts \<noteq> []"
  by (simp add: save_new_technique_def)

section \<open>Two timer threads\<close>

lemma run_append: "run (xs @ ys) c = run ys (run xs c)"
  by (simp add: run_def)

lemma run_Cons: "run (e # evs) c = run evs (exec e c)"
  by (simp add: run_def)

lemma run_Nil: "run [] c = c"
  by (simp add: run_def)

lemma both_tick_step:
  assumes "loops c = [At_test, At_test]" "timer_running (app_state c)"
    "\<not> timer_paused (app_state c)" "2 \<le> remaining_time (app_state c)"
  shows "run both_tick c =
         \<lparr>app_state = (app_state c)\<lparr>remaining_time := remaining_time (app_state c) - 2\<rparr>,
          loops = [At_test, At_test]\<rparr>"
  using assms
  by (simp add: both_tick_def run_Cons run_Nil run_timer_cond_def run_timer_body_def)

lemma both_tick_rounds:
  assumes "loops c = [At_test, At_test]" "timer_running (app_state c)"
    "\<not> timer_paused (app_state c)" "2 * int n \<le> remaining_time (app_state c)"
  shows "run (concat (replicate n both_tick)) c =
         \<lparr>app_state = (app_state c)\<lparr>remaining_time := remaining_time (app_state c) - 2 * int n\<rparr>,
          loops = [At_test, At_test]\<rparr>"
  using assms
proof (induction n arbitrary: c)
  case 0
  then show ?case by (simp add: run_Nil)
next
  case (Suc n)
  let ?c = "\<lparr>app_state = (app_state c)\<lparr>remaining_time := remaining_time (app_state c) - 2\<rparr>,
            loops = [At_test, At_test]\<rparr>"
  from Suc.prems have 1: "run both_tick c = ?c"
    by (intro both_tick_step) simp_all
  from Suc.prems have "run (concat (replicate n both_tick)) ?c =
     \<lparr>app_state = (app_state ?c)\<lparr>remaining_time := remaining_time (app_state ?c) - 2 * int n\<rparr>,
      loops = [At_test, At_test]\<rparr>"
    by (intro Suc.IH) simp_all
  with 1 show ?case by (simp add: run_append)
qed

lemma restart_state:
  "loops (run restart boot) = [At_test, At_test]"
  "timer_running (app_state (run restart boot))"
  "\<not> timer_paused (app_state (run restart boot))"
  "remaining_time (app_state (run restart boot)) = 1500"
  "pending_complete (app_state (run restart boot)) = 0"
  "current_phase (app_state (run restart boot)) = Work"
  "completed_cycles (app_state (run restart boot)) = 0"
  "current_technique (app_state (run restart boot)) = hd default_techniques"
  "notifications (app_state (run restart boot)) = []"
  by (simp_all add: restart_def boot_def run_Cons run_Nil after_handler_def start_timer_def
      reset_timer_def update_display_def run_timer_cond_def run_timer_body_def
      fresh_app_sel default_head)

lemma both_leave_step:
  assumes "loops c = [At_test, At_test]" "timer_running (app_state c)"
    "remaining_time (app_state c) \<le> 0"
  shows "run both_leave c =
         \<lparr>app_state = (app_state c)\<lparr>pending_complete := Suc (Suc (pending_complete (app_state c)))\<rparr>,
          loops = [Finished, Finished]\<rparr>"
  using assms
  by (simp add: both_leave_def run_Cons run_Nil run_timer_cond_def run_timer_exit_def)

lemma two_callbacks:
  assumes "pending_complete s = Suc (Suc 0)" "current_phase s = Work" "completed_cycles s = 0"
    "current_technique s = hd default_techniques" "notifications s = []"
  shows "notifications (app_state (run [Run_callback, Run_callback] \<lparr>app_state = s, loops = ps\<rparr>)) =
           [''Break time complete! Back to work.'', ''Work period complete! Time for a break.'']"
    "current_phase (app_state (run [Run_callback, Run_callback] \<lparr>app_state = s, loops = ps\<rparr>)) = Work"
    "completed_cycles (app_state (run [Run_callback, Run_callback] \<lparr>app_state = s, loops = ps\<rparr>)) = 1"
    "remaining_time (app_state (run [Run_callback, Run_callback] \<lparr>app_state = s, loops = ps\<rparr>)) = 1500"
    "loops (run [Run_callback, Run_callback] \<lparr>app_state = s, loops = ps\<rparr>) = ps @ [At_test, At_test]"
  using assms
  by (simp_all add: run_Cons run_Nil after_handler_def handle_timer_complete_def
      show_notification_def notification_message_def Let_def default_head)

lemma race_at_one:
  assumes "loops c = [At_test, At_test]" "timer_running (app_state c)"
    "\<not> timer_paused (app_state c)" "remaining_time (app_state c) = 2"
  shows "remaining_time (app_state
           (run ([Thread_step 0, Thread_step 0] @
                 [Thread_step 0, Thread_step 1, Thread_step 0, Thread_step 1]) c)) = - 1"
  using assms
  by (simp add: run_Cons run_Nil run_timer_cond_def run_timer_body_def)

lemma double_completion_state:
  "run double_completion boot =
     \<lparr>app_state = (app_state (run restart boot))\<lparr>remaining_time := 0, pending_complete := 2\<rparr>,
      loops = [Finished, Finished]\<rparr>"
proof -
  let ?r = "run restart boot"
  have 1: "run (concat (replicate 750 both_tick)) ?r =
     \<lparr>app_state = (app_state ?r)\<lparr>remaining_time := remaining_time (app_state ?r) - 2 * int 750\<rparr>,
      loops = [At_test, At_test]\<rparr>"
    by (rule both_tick_rounds) (simp_all add: restart_state)
  have 2: "run both_leave (run (concat (replicate 750 both_tick)) ?r) =
     \<lparr>app_state = (app_state (run (concat (replicate 750 both_tick)) ?r))
        \<lparr>pending_complete :=
           Suc (Suc (pending_complete (app_state (run (concat (replicate 750 both_tick)) ?r))))\<rparr>,
      loops = [Finished, Finished]\<rparr>"
    by (rule both_leave_step) (simp_all add: 1 restart_state)
  show ?thesis
    unfolding double_completion_def run_append 2
    by (simp add: 1 restart_state)
qed

lemma thread_step_reachable:
  "reachable s \<Longrightarrow> reachable (snd (thread_step p s))"
proof (cases p)
  case In_body
  assume r: "reachable s"
  show ?thesis
  proof (cases "timer_paused s")
    case True
    with r In_body show ?thesis by (simp add: run_timer_body_def)
  next
    case False
    from r have "reachable (s\<lparr>remaining_time := remaining_time s - 1\<rparr>)"
      by (rule reachable.stored)
    with False In_body show ?thesis by (simp add: run_timer_body_def)
  qed
qed (simp_all add: reachable.exited)

lemma exec_reachable:
  assumes "reachable (app_state c)" shows "reachable (app_state (exec e c))"
proof (cases e)
  case Press_start
  with assms show ?thesis by (simp add: after_handler_def reachable.started)
next
  case Press_pause
  with assms show ?thesis by (simp add: after_handler_def reachable.paused)
next
  case Press_reset
  with assms show ?thesis by (simp add: after_handler_def reachable.was_reset)
next
  case (Thread_step i)
  from assms have "reachable (snd (thread_step (loops c ! i) (app_state c)))"
    by (rule thread_step_reachable)
  with assms Thread_step show ?thesis by (simp add: split_beta)
next
  case Run_callback
  from assms have
    "reachable ((app_state c)\<lparr>pending_complete := pending_complete (app_state c) - 1\<rparr>)"
    by (rule reachable.posted)
  then have "reachable (final_state (handle_timer_complete
      ((app_state c)\<lparr>pending_complete := pending_complete (app_state c) - 1\<rparr>)))"
    by (rule reachable.completed)
  with assms Run_callback show ?thesis by (simp add: after_handler_def)
qed

lemma run_reachable:
  "reachable (app_state c) \<Longrightarrow> reachable (app_state (run evs c))"
  by (induction evs arbitrary: c) (simp_all add: run_Nil run_Cons exec_reachable)

section \<open>More on loading\<close>

lemma load_loop_Exception:
  "load_loop items = Exception \<longleftrightarrow> (\<exists>x\<in>set items. technique_of_json x = Raises)"
  by (induction items) (auto split: built.splits loaded.splits)

lemma technique_of_json_Raises:
  "technique_of_json x = Raises \<longleftrightarrow>
     (case x of
        JObj kvs \<Rightarrow> map_of kvs ''name'' = None \<or> map_of kvs ''work_time'' = None \<or>
                    map_of kvs ''break_time'' = None
      | _ \<Rightarrow> True)"
  by (cases x) (auto split: option.splits)

lemma load_techniques_empty_documents:
  "load_techniques \<lparr>config_dir = True, config_file = Some (Json (JObj []))\<rparr> = Returned False []"
  "load_techniques \<lparr>config_dir = True, config_file = Some (Json (JStr []))\<rparr> = Returned False []"
  by (simp_all add: load_techniques_def)

section \<open>Properties of the specification\<close>

text \<open>
  C1: when a phase completes, a finished Work phase increments \<open>completed_cycles\<close> and
  is followed by a long break if the new count is a multiple of
  \<open>cycles_before_long_break\<close> and by a break otherwise; any other finished phase is
  followed by Work; the remaining time becomes the minutes of the new phase times 60.
  With a cadence of 4 the k-th completed Work phase is followed by a long break exactly
  when k is a multiple of 4.
\<close>

theorem handle_timer_complete_transition:
  assumes "cycles_before_long_break (current_technique s) \<noteq> 0"
  shows "\<exists>s'. handle_timer_complete s = Inr s' \<and>
     current_technique s' = current_technique s \<and>
     (current_phase s = Work \<longrightarrow>
        completed_cycles s' = completed_cycles s + 1 \<and>
        current_phase s' =
          (if completed_cycles s' mod cycles_before_long_break (current_technique s) = 0
           then Long_break else Break)) \<and>
     (current_phase s \<noteq> Work \<longrightarrow>
        completed_cycles s' = completed_cycles s \<and> current_phase s' = Work) \<and>
     remaining_time s' = phase_minutes s' * 60 \<and>
     (\<forall>k. current_phase s = Work \<and> cycles_before_long_break (current_technique s) = 4 \<and>
          completed_cycles s' = int k \<longrightarrow>
          current_phase s' = (if k mod 4 = 0 then Long_break else Break))"
proof (cases "current_phase s = Work")
  case False
  then show ?thesis
    by (simp add: handle_timer_complete_def show_notification_def Let_def phase_minutes_def)
next
  case True
  let ?c = "completed_cycles s + 1"
  let ?n = "cycles_before_long_break (current_technique s)"
  have num: "(int k mod 4 = 0) = (k mod 4 = 0)" "(4 dvd int k) = (k mod 4 = 0)" for k :: nat
    by presburger+
  show ?thesis
  proof (cases "?c mod ?n = 0")
    case long: True
    with True assms show ?thesis
      by (auto simp: handle_timer_complete_def show_notification_def Let_def
          phase_minutes_def num)
  next
    case short: False
    with True assms show ?thesis
      by (auto simp: handle_timer_complete_def show_notification_def Let_def
          phase_minutes_def num)
  qed
qed

theorem handle_timer_complete_transition_witness:
  "cycles_before_long_break (current_technique (start_timer fresh_app)) \<noteq> 0 \<and>
   (\<exists>s'. handle_timer_complete (start_timer fresh_app) = Inr s' \<and>
         completed_cycles s' = 1 \<and> current_phase s' = Break \<and> remaining_time s' = 300)"
proof -
  have h: "cycles_before_long_break (current_technique (start_timer fresh_app)) \<noteq> 0"
    by (simp add: running_state) (simp add: fresh_app_def default_techniques_def)
  from handle_timer_complete_transition [OF h] obtain s'
    where s': "handle_timer_complete (start_timer fresh_app) = Inr s'"
      "current_technique s' = current_technique (start_timer fresh_app)"
      "current_phase (start_timer fresh_app) = Work \<longrightarrow>
        completed_cycles s' = completed_cycles (start_timer fresh_app) + 1 \<and>
        current_phase s' =
          (if completed_cycles s' mod
              cycles_before_long_break (current_technique (start_timer fresh_app)) = 0
           then Long_break else Break)"
      "remaining_time s' = phase_minutes s' * 60"
    by blast
  have t: "current_technique (start_timer fresh_app) = hd default_techniques"
    "current_phase (start_timer fresh_app) = Work"
    "completed_cycles (start_timer fresh_app) = 0"
    by (simp_all add: running_state) (simp_all add: fresh_app_def)
  from s'(3) t have c: "completed_cycles s' = 1" "current_phase s' = Break"
    by (simp_all add: default_techniques_def)
  from s'(4) c s'(2) t have "remaining_time s' = 300"
    by (simp add: phase_minutes_def default_techniques_def)
  with h s'(1) c show ?thesis by blast
qed

text \<open>
  C2: started, reset and started again within the sleep of the first timer thread, the
  application has two timer threads. Counting down in turn they bring
  \<open>remaining_time\<close> of the one Work phase to 0, and each of them posts
  \<open>handle_timer_complete\<close>: the completion fires twice for that phase, the second
  time ending the break that the first began. If both threads pass the loop test at
  1 before either decrements, \<open>remaining_time\<close> becomes \<open>-1\<close>.
\<close>

theorem two_timer_loops_complete_twice:
  "loops (run double_completion boot) = [Finished, Finished] \<and>
   remaining_time (app_state (run double_completion boot)) = 0 \<and>
   current_phase (app_state (run double_completion boot)) = Work \<and>
   completed_cycles (app_state (run double_completion boot)) = 0 \<and>
   pending_complete (app_state (run double_completion boot)) = 2 \<and>
   notifications (app_state (run (double_completion @ [Run_callback, Run_callback]) boot)) =
     [''Break time complete! Back to work.'', ''Work period complete! Time for a break.''] \<and>
   current_phase (app_state (run (double_completion @ [Run_callback, Run_callback]) boot)) = Work \<and>
   completed_cycles (app_state (run (double_completion @ [Run_callback, Run_callback]) boot)) = 1 \<and>
   remaining_time (app_state (run below_zero boot)) = - 1"
proof -
  let ?s = "(app_state (run restart boot))\<lparr>remaining_time := 0, pending_complete := 2\<rparr>"
  have s: "pending_complete ?s = Suc (Suc 0)" "current_phase ?s = Work" "completed_cycles ?s = 0"
    "current_technique ?s = hd default_techniques" "notifications ?s = []"
    by (simp_all add: restart_state)
  have d: "run (double_completion @ [Run_callback, Run_callback]) boot =
           run [Run_callback, Run_callback] \<lparr>app_state = ?s, loops = [Finished, Finished]\<rparr>"
    by (simp only: run_append double_completion_state)
  let ?r = "run restart boot"
  have 1: "run (concat (replicate 749 both_tick)) ?r =
     \<lparr>app_state = (app_state ?r)\<lparr>remaining_time := remaining_time (app_state ?r) - 2 * int 749\<rparr>,
      loops = [At_test, At_test]\<rparr>"
    by (rule both_tick_rounds) (simp_all add: restart_state)
  have "remaining_time (app_state
           (run ([Thread_step 0, Thread_step 0] @
                 [Thread_step 0, Thread_step 1, Thread_step 0, Thread_step 1])
              (run (concat (replicate 749 both_tick)) ?r))) = - 1"
    by (rule race_at_one) (simp_all add: 1 restart_state)
  then have z: "remaining_time (app_state (run below_zero boot)) = - 1"
    by (simp only: below_zero_def run_append)
  show ?thesis
    unfolding d two_callbacks [OF s]
    by (simp add: double_completion_state restart_state z)
qed

text \<open>
  C3 (amended): from a paused timer \<open>start_timer\<close> resumes and leaves the phase, the
  remaining time and the cycle count as they are. In every other state, running or
  not, it starts the Work phase afresh: running, not paused, remaining time
  \<open>work_time * 60\<close>, one more timer thread; the cycle count is left as it is, and it is
  0 after start-up and after a reset. While the timer is running and not paused the
  Start button is disabled.
\<close>

theorem start_timer_contract:
  "(timer_running s \<and> timer_paused s \<longrightarrow>
      timer_running (start_timer s) \<and> \<not> timer_paused (start_timer s) \<and>
      current_phase (start_timer s) = current_phase s \<and>
      remaining_time (start_timer s) = remaining_time s \<and>
      completed_cycles (start_timer s) = completed_cycles s \<and>
      timer_threads (start_timer s) = timer_threads s) \<and>
   (\<not> (timer_running s \<and> timer_paused s) \<longrightarrow>
      timer_running (start_timer s) \<and> \<not> timer_paused (start_timer s) \<and>
      current_phase (start_timer s) = Work \<and>
      remaining_time (start_timer s) = work_time (current_technique s) * 60 \<and>
      completed_cycles (start_timer s) = completed_cycles s \<and>
      timer_threads (start_timer s) = Suc (timer_threads s)) \<and>
   (init_app ts = Inr s \<longrightarrow> \<not> timer_running s \<and> completed_cycles (start_timer s) = 0) \<and>
   (reset_timer s0 = Inr s \<longrightarrow> \<not> timer_running s \<and> completed_cycles (start_timer s) = 0) \<and>
   (reachable s \<and> timer_running s \<and> \<not> timer_paused s \<longrightarrow> \<not> start_button s)"
proof (intro conjI impI)
  assume "init_app ts = Inr s"
  from init_app_Inr [OF this] show "\<not> timer_running s" "completed_cycles (start_timer s) = 0"
    by (auto simp: start_timer_def)
next
  assume "reset_timer s0 = Inr s"
  then show "\<not> timer_running s" "completed_cycles (start_timer s) = 0"
    by (auto simp: reset_timer_def update_display_def start_timer_def)
next
  assume "reachable s \<and> timer_running s \<and> \<not> timer_paused s"
  then show "\<not> start_button s"
    using reachable_app_inv [of s] by (auto simp: app_inv_def)
qed (auto simp: start_timer_def)

theorem start_timer_restarts_running_timer:
  "timer_running on_break \<and> \<not> timer_paused on_break \<and>
   current_phase on_break = Break \<and> remaining_time on_break = 300 \<and>
   timer_threads on_break = 2 \<and>
   current_phase (start_timer on_break) = Work \<and>
   remaining_time (start_timer on_break) = 1500 \<and>
   timer_threads (start_timer on_break) = 3"
  by (simp add: on_break_state start_timer_def fresh_app_sel default_head)

theorem start_timer_contract_witness:
  "timer_running paused_app \<and> timer_paused paused_app \<and>
   remaining_time paused_app = 1499 \<and> remaining_time (start_timer paused_app) = 1499 \<and>
   \<not> timer_paused (start_timer paused_app) \<and>
   init_app default_techniques = Inr fresh_app \<and>
   \<not> (timer_running fresh_app \<and> timer_paused fresh_app) \<and>
   current_phase (start_timer fresh_app) = Work \<and>
   remaining_time (start_timer fresh_app) = 1500 \<and>
   completed_cycles (start_timer fresh_app) = 0 \<and>
   reachable on_break \<and> timer_running on_break \<and> \<not> timer_paused on_break \<and>
   \<not> start_button on_break"
proof -
  have p: "timer_running paused_app \<and> timer_paused paused_app"
    "remaining_time paused_app = 1499"
    by (simp_all add: paused_app_state)
  have f: "\<not> (timer_running fresh_app \<and> timer_paused fresh_app)"
    "work_time (current_technique fresh_app) * 60 = 1500"
    by (simp_all add: fresh_app_sel default_head)
  have b: "reachable on_break \<and> timer_running on_break \<and> \<not> timer_paused on_break"
    by (simp add: reachable_on_break) (simp add: on_break_state fresh_app_sel)
  note A = start_timer_contract [of paused_app default_techniques fresh_app]
  note B = start_timer_contract [of fresh_app default_techniques fresh_app]
  note C = start_timer_contract [of on_break default_techniques fresh_app]
  from A p have 1: "remaining_time (start_timer paused_app) = 1499"
    "\<not> timer_paused (start_timer paused_app)"
    by simp_all
  from B f init_app_default
  have 2: "current_phase (start_timer fresh_app) = Work"
    "remaining_time (start_timer fresh_app) = 1500"
    "completed_cycles (start_timer fresh_app) = 0"
    by simp_all
  from C b have 3: "\<not> start_button on_break"
    by blast
  from p f b 1 2 3 init_app_default show ?thesis by blast
qed

text \<open>
  C4 (amended): on a running, unpaused timer \<open>pause_timer\<close> sets the pause flag and
  leaves the remaining time, the phase and the cycle count as they are. On a paused
  timer it is the Resume button: it clears the pause flag, so ticking goes on from the
  same remaining time. On a timer that is not running it changes none of the timer
  fields. While the pause flag is set, any number of passes of the timer loop leave the
  state unchanged, and \<open>start_timer\<close> resumes with the same remaining time and phase.
\<close>

theorem pause_timer_contract:
  "(timer_running s \<and> \<not> timer_paused s \<longrightarrow>
      timer_running (pause_timer s) \<and> timer_paused (pause_timer s) \<and>
      remaining_time (pause_timer s) = remaining_time s \<and>
      current_phase (pause_timer s) = current_phase s \<and>
      completed_cycles (pause_timer s) = completed_cycles s) \<and>
   (timer_running s \<and> timer_paused s \<longrightarrow>
      timer_running (pause_timer s) \<and> \<not> timer_paused (pause_timer s) \<and>
      remaining_time (pause_timer s) = remaining_time s \<and>
      current_phase (pause_timer s) = current_phase s \<and>
      completed_cycles (pause_timer s) = completed_cycles s) \<and>
   (reachable s \<and> \<not> timer_running s \<longrightarrow>
      \<not> timer_running (pause_timer s) \<and> timer_paused (pause_timer s) = timer_paused s \<and>
      remaining_time (pause_timer s) = remaining_time s \<and>
      current_phase (pause_timer s) = current_phase s \<and>
      completed_cycles (pause_timer s) = completed_cycles s) \<and>
   (timer_paused s \<longrightarrow> (tick ^^ n) s = s) \<and>
   (timer_running s \<and> timer_paused s \<longrightarrow>
      timer_running (start_timer s) \<and> \<not> timer_paused (start_timer s) \<and>
      remaining_time (start_timer s) = remaining_time s \<and>
      current_phase (start_timer s) = current_phase s)"
proof (intro conjI impI)
  assume "timer_paused s"
  then show "(tick ^^ n) s = s" by (rule ticks_paused)
next
  assume a: "reachable s \<and> \<not> timer_running s"
  with reachable_paused_running [of s] have "\<not> timer_paused s" by blast
  with a show "timer_paused (pause_timer s) = timer_paused s"
    by (simp add: pause_timer_def)
qed (simp_all add: pause_timer_def start_timer_def)

theorem pause_timer_resumes_paused_timer:
  "timer_running paused_app \<and> timer_paused paused_app \<and>
   remaining_time paused_app = 1499 \<and>
   \<not> timer_paused (pause_timer paused_app) \<and>
   remaining_time (tick (pause_timer paused_app)) = 1498"
  by (simp add: paused_app_state pause_timer_def tick_def run_timer_cond_def
      run_timer_body_def)

theorem pause_timer_contract_witness:
  "timer_running (start_timer fresh_app) \<and> \<not> timer_paused (start_timer fresh_app) \<and>
   timer_paused (pause_timer (start_timer fresh_app)) \<and>
   remaining_time (pause_timer (start_timer fresh_app)) = 1500 \<and>
   timer_running paused_app \<and> timer_paused paused_app \<and>
   \<not> timer_paused (pause_timer paused_app) \<and>
   remaining_time (pause_timer paused_app) = 1499 \<and>
   (tick ^^ 7) paused_app = paused_app \<and>
   remaining_time (start_timer paused_app) = 1499 \<and>
   reachable fresh_app \<and> \<not> timer_running fresh_app \<and>
   remaining_time (pause_timer fresh_app) = 0"
proof -
  have r: "timer_running (start_timer fresh_app) \<and> \<not> timer_paused (start_timer fresh_app)"
    "remaining_time (start_timer fresh_app) = 1500"
    by (simp_all add: running_state fresh_app_sel)
  have p: "timer_running paused_app \<and> timer_paused paused_app"
    "timer_paused paused_app" "remaining_time paused_app = 1499"
    by (simp_all add: paused_app_state)
  have f: "reachable fresh_app \<and> \<not> timer_running fresh_app" "remaining_time fresh_app = 0"
    by (simp_all add: reachable_fresh_app fresh_app_sel)
  note A = pause_timer_contract [of "start_timer fresh_app" 7]
  note B = pause_timer_contract [of paused_app 7]
  note C = pause_timer_contract [of fresh_app 7]
  from A r have 1: "timer_paused (pause_timer (start_timer fresh_app))"
    "remaining_time (pause_timer (start_timer fresh_app)) = 1500"
    by simp_all
  from B p have 2: "\<not> timer_paused (pause_timer paused_app)"
    "remaining_time (pause_timer paused_app) = 1499"
    "(tick ^^ 7) paused_app = paused_app"
    "remaining_time (start_timer paused_app) = 1499"
    by simp_all
  from C f have 3: "remaining_time (pause_timer fresh_app) = 0"
    by simp
  from r p f 1 2 3 show ?thesis by blast
qed

text \<open>
  C5: \<open>__init__\<close> leaves the timer idle: not running, not paused, the phase label
  "Ready to start", no completed cycle, and the display showing \<open>work_time * 60\<close>
  seconds of the current technique (the remaining seconds of an idle timer are this
  displayed value; nothing counts down). \<open>reset_timer\<close> succeeds in every state and
  leaves the timer idle in the same way, with Start enabled and Pause and Reset
  disabled: for the same technique it shows exactly what the timer showed when it was
  created.
\<close>

theorem reset_timer_returns_to_idle:
  "(init_app ts = Inr s \<longrightarrow>
      \<not> timer_running s \<and> \<not> timer_paused s \<and> phase_var s = ''Ready to start'' \<and>
      completed_cycles s = 0 \<and>
      displayed_seconds s = work_time (current_technique s) * 60) \<and>
   (\<exists>s'. reset_timer s0 = Inr s' \<and>
      \<not> timer_running s' \<and> \<not> timer_paused s' \<and> phase_var s' = ''Ready to start'' \<and>
      completed_cycles s' = 0 \<and>
      current_technique s' = current_technique s0 \<and>
      displayed_seconds s' = work_time (current_technique s0) * 60 \<and>
      start_button s' \<and> \<not> pause_button s' \<and> \<not> reset_button s') \<and>
   (init_app ts = Inr s \<and> current_technique s0 = current_technique s \<longrightarrow>
      idle_view (final_state (reset_timer s0)) = idle_view s)"
proof -
  have reset: "\<exists>s'. reset_timer s0 = Inr s' \<and>
      \<not> timer_running s' \<and> \<not> timer_paused s' \<and> phase_var s' = ''Ready to start'' \<and>
      completed_cycles s' = 0 \<and>
      current_technique s' = current_technique s0 \<and>
      displayed_seconds s' = work_time (current_technique s0) * 60 \<and>
      start_button s' \<and> \<not> pause_button s' \<and> \<not> reset_button s'"
    by (simp add: reset_timer_def update_display_def displayed_seconds_def)
  have created: "\<not> timer_running s \<and> \<not> timer_paused s \<and> phase_var s = ''Ready to start'' \<and>
      completed_cycles s = 0 \<and>
      displayed_seconds s = work_time (current_technique s) * 60"
    if "init_app ts = Inr s"
  proof -
    from init_app_Inr [OF that] obtain t rest where
      "s = \<lparr>timer_running = False, timer_paused = False, remaining_time = 0,
          current_phase = Work, completed_cycles = 0,
          techniques = ts, current_technique = t,
          time_display = (work_time t, 0), phase_var = ''Ready to start'',
          start_button = True, pause_button = False, reset_button = False,
          timer_threads = 0, pending_complete = 0, notifications = []\<rparr>"
      by blast
    then show ?thesis by (simp add: displayed_seconds_def)
  qed
  have same: "idle_view (final_state (reset_timer s0)) = idle_view s"
    if "init_app ts = Inr s \<and> current_technique s0 = current_technique s"
  proof -
    from reset obtain s' where s': "reset_timer s0 = Inr s'"
      "\<not> timer_running s'" "\<not> timer_paused s'" "phase_var s' = ''Ready to start''"
      "completed_cycles s' = 0"
      "displayed_seconds s' = work_time (current_technique s0) * 60"
      by blast
    from that created have "\<not> timer_running s" "\<not> timer_paused s"
      "phase_var s = ''Ready to start''" "completed_cycles s = 0"
      "displayed_seconds s = work_time (current_technique s) * 60"
      by simp_all
    with s' that show ?thesis by (simp add: idle_view_def)
  qed
  from reset created same show ?thesis by blast
qed

theorem reset_timer_returns_to_idle_witness:
  "init_app default_techniques = Inr fresh_app \<and>
   displayed_seconds fresh_app = 1500 \<and>
   timer_running on_break \<and> completed_cycles on_break = 1 \<and>
   current_technique on_break = current_technique fresh_app \<and>
   idle_view (final_state (reset_timer on_break)) = idle_view fresh_app \<and>
   idle_view fresh_app = (''Ready to start'', False, False, 0, 1500)"
proof -
  note A = reset_timer_returns_to_idle [of default_techniques fresh_app on_break]
  have b: "timer_running on_break" "completed_cycles on_break = 1"
    "current_technique on_break = current_technique fresh_app"
    by (simp_all add: on_break_state)
  have w: "work_time (current_technique fresh_app) * 60 = 1500"
    by (simp add: fresh_app_sel default_head)
  from A init_app_default w have 1: "displayed_seconds fresh_app = 1500"
    by simp
  from A init_app_default b have 2:
    "idle_view (final_state (reset_timer on_break)) = idle_view fresh_app"
    by blast
  have 3: "idle_view fresh_app = (''Ready to start'', False, False, 0, 1500)"
    using 1 by (simp add: idle_view_def fresh_app_sel)
  from init_app_default 1 2 3 b show ?thesis by simp
qed

text \<open>
  C6: the file \<open>techniques.json\<close> holding the empty list \<open>[]\<close> is loaded as the empty
  list of techniques, and \<open>__init__\<close> then fails with \<open>IndexError\<close> at
  \<open>self.techniques[0]\<close>.
\<close>

theorem load_techniques_empty_list:
  "load_techniques \<lparr>config_dir = True, config_file = Some (Json (JArr []))\<rparr> =
     Returned False [] \<and>
   startup \<lparr>config_dir = True, config_file = Some (Json (JArr []))\<rparr> =
     Some (Inl IndexError)"
  by (simp add: load_techniques_def startup_def init_app_def)

text \<open>
  C7: without a techniques file \<open>load_techniques\<close> returns the three built-in
  techniques (Classic Pomodoro 25/5, Long Focus 50/10, Short Burst 15/3, each with a
  description); and every record it builds from a file has long break 15, cadence 4
  and an empty description wherever the file's record lacks that key.
\<close>

theorem load_techniques_defaults:
  "(config_file d = None \<longrightarrow> load_techniques d = Returned False default_techniques) \<and>
   map (\<lambda>t. (name t, work_time t, break_time t)) default_techniques =
     [(''Classic Pomodoro'', 25, 5), (''Long Focus'', 50, 10), (''Short Burst'', 15, 3)] \<and>
   list_all (\<lambda>t. description t \<noteq> []) default_techniques \<and>
   (config_file d = Some (Json (JArr items)) \<and> load_techniques d = Returned False ts \<longrightarrow>
      list_all2 (\<lambda>t_data t. technique_of_json t_data = Built t) items ts) \<and>
   (technique_of_json (JObj kvs) = Built t \<longrightarrow>
      (map_of kvs ''long_break_time'' = None \<longrightarrow> long_break_time t = 15) \<and>
      (map_of kvs ''cycles_before_long_break'' = None \<longrightarrow> cycles_before_long_break t = 4) \<and>
      (map_of kvs ''description'' = None \<longrightarrow> description t = []))"
proof (intro conjI)
  show "config_file d = None \<longrightarrow> load_techniques d = Returned False default_techniques"
    by (simp add: load_techniques_def)
  show "map (\<lambda>t. (name t, work_time t, break_time t)) default_techniques =
     [(''Classic Pomodoro'', 25, 5), (''Long Focus'', 50, 10), (''Short Burst'', 15, 3)]"
    by (simp add: default_techniques_def)
  show "list_all (\<lambda>t. description t \<noteq> []) default_techniques"
    by (rule default_techniques_described)
  show "config_file d = Some (Json (JArr items)) \<and> load_techniques d = Returned False ts \<longrightarrow>
      list_all2 (\<lambda>t_data t. technique_of_json t_data = Built t) items ts"
  proof
    assume a: "config_file d = Some (Json (JArr items)) \<and> load_techniques d = Returned False ts"
    then have "load_loop items = Loaded ts"
      by (auto simp: load_techniques_def split: loaded.splits)
    then show "list_all2 (\<lambda>t_data t. technique_of_json t_data = Built t) items ts"
      by (rule load_loop_Loaded)
  qed
  show "technique_of_json (JObj kvs) = Built t \<longrightarrow>
      (map_of kvs ''long_break_time'' = None \<longrightarrow> long_break_time t = 15) \<and>
      (map_of kvs ''cycles_before_long_break'' = None \<longrightarrow> cycles_before_long_break t = 4) \<and>
      (map_of kvs ''description'' = None \<longrightarrow> description t = [])"
    using technique_of_json_defaults by blast
qed

theorem load_techniques_defaults_witness:
  "config_file \<lparr>config_dir = False, config_file = None\<rparr> = None \<and>
   load_techniques \<lparr>config_dir = False, config_file = None\<rparr> =
     Returned False default_techniques \<and>
   load_techniques \<lparr>config_dir = True, config_file = Some (Json (JArr [JObj short_record]))\<rparr> =
     Returned False
       [\<lparr>name = ''Deep'', work_time = 90, break_time = 20, long_break_time = 15,
         cycles_before_long_break = 4, description = []\<rparr>] \<and>
   map_of short_record ''long_break_time'' = None \<and>
   long_break_time
     \<lparr>name = ''Deep'', work_time = 90, break_time = 20, long_break_time = 15,
      cycles_before_long_break = 4, description = []\<rparr> = 15"
proof -
  let ?t = "\<lparr>name = ''Deep'', work_time = 90, break_time = 20, long_break_time = 15,
             cycles_before_long_break = 4, description = []\<rparr>"
  have l: "load_techniques \<lparr>config_dir = True, config_file = Some (Json (JArr [JObj short_record]))\<rparr> =
     Returned False [?t]"
    by (simp add: load_techniques_def short_record_built del: technique_of_json.simps)
  note A = load_techniques_defaults
    [of "\<lparr>config_dir = False, config_file = None\<rparr>" "[]" "[]" short_record ?t]
  from A have 1: "load_techniques \<lparr>config_dir = False, config_file = None\<rparr> =
     Returned False default_techniques"
    by simp
  from A short_record_built short_record_keys have 2: "long_break_time ?t = 15"
    by blast
  from 1 2 l short_record_keys show ?thesis by simp
qed

text \<open>
  C8 (amended): when the techniques file exists but cannot be read or parsed,
  \<open>load_techniques\<close> raises nothing: it shows an error dialog and returns the built-in
  default list. It does the same when the loop over the parsed document raises: the
  document cannot be iterated, or one of its items is not an object or lacks one of the
  three required keys.
\<close>

theorem load_techniques_falls_back:
  "(config_file d = Some Garbled \<longrightarrow> load_techniques d = Returned True default_techniques) \<and>
   (config_file d = Some (Json j) \<and> iter_items j = None \<longrightarrow>
      load_techniques d = Returned True default_techniques) \<and>
   (config_file d = Some (Json j) \<and> iter_items j = Some items \<and> load_loop items = Exception \<longrightarrow>
      load_techniques d = Returned True default_techniques) \<and>
   (config_file d = Some (Json j) \<and> iter_items j = Some items \<and>
    x \<in> set items \<and> technique_of_json x = Raises \<longrightarrow>
      load_techniques d = Returned True default_techniques)"
proof -
  have "load_loop items = Exception" if "x \<in> set items \<and> technique_of_json x = Raises"
    using that load_loop_Exception by blast
  then show ?thesis by (auto simp: load_techniques_def)
qed

theorem load_techniques_swallows_error:
  "load_techniques \<lparr>config_dir = True, config_file = Some Garbled\<rparr> =
     Returned True default_techniques \<and>
   startup \<lparr>config_dir = True, config_file = Some Garbled\<rparr> = Some (Inr fresh_app)"
  by (simp add: load_techniques_def startup_def init_app_default)

theorem load_techniques_falls_back_witness:
  "config_file \<lparr>config_dir = True, config_file = Some Garbled\<rparr> = Some Garbled \<and>
   load_techniques \<lparr>config_dir = True, config_file = Some Garbled\<rparr> =
     Returned True default_techniques \<and>
   iter_items (JInt 3) = None \<and>
   load_techniques \<lparr>config_dir = True, config_file = Some (Json (JInt 3))\<rparr> =
     Returned True default_techniques \<and>
   load_loop [JObj []] = Exception \<and>
   load_techniques \<lparr>config_dir = True, config_file = Some (Json (JArr [JObj []]))\<rparr> =
     Returned True default_techniques"
proof -
  note A = load_techniques_falls_back
    [of "\<lparr>config_dir = True, config_file = Some Garbled\<rparr>" "JInt 3" "[]" JNull]
  note B = load_techniques_falls_back
    [of "\<lparr>config_dir = True, config_file = Some (Json (JInt 3))\<rparr>" "JInt 3" "[]" JNull]
  note C = load_techniques_falls_back
    [of "\<lparr>config_dir = True, config_file = Some (Json (JArr [JObj []]))\<rparr>"
        "JArr [JObj []]" "[JObj []]" "JObj []"]
  have e: "load_loop [JObj []] = Exception" by simp
  have r: "JObj [] \<in> set [JObj []] \<and> technique_of_json (JObj []) = Raises" by simp
  from A have 1: "load_techniques \<lparr>config_dir = True, config_file = Some Garbled\<rparr> =
     Returned True default_techniques" by simp
  from B have 2: "load_techniques \<lparr>config_dir = True, config_file = Some (Json (JInt 3))\<rparr> =
     Returned True default_techniques" by simp
  from C r have 3: "load_techniques \<lparr>config_dir = True, config_file = Some (Json (JArr [JObj []]))\<rparr> =
     Returned True default_techniques" by simp
  from 1 2 3 e show ?thesis by simp
qed

text \<open>
  C9 (amended): \<open>save_techniques\<close> creates the configuration directory and then writes
  the file in place. If nothing fails the file holds the complete serialized list. If
  \<open>os.makedirs\<close> fails the exception leaves the method and the disk is untouched. If
  opening the file fails, an error dialog is shown and the file is untouched. If the
  write fails after the file has been opened, an error dialog is shown and the file is
  left truncated: it holds neither the old nor the new list, and the next load falls
  back to the defaults.
\<close>

theorem save_techniques_outcomes:
  "save_techniques None ts d =
     Inr (False, d\<lparr>config_dir := True,
                   config_file := Some (Json (JArr (map technique_json ts)))\<rparr>) \<and>
   save_techniques (Some Makedirs_fails) ts d = Inl OSError \<and>
   save_techniques (Some Open_fails) ts d = Inr (True, d\<lparr>config_dir := True\<rparr>) \<and>
   save_techniques (Some Write_fails) ts d =
     Inr (True, d\<lparr>config_dir := True, config_file := Some Garbled\<rparr>) \<and>
   load_techniques (d\<lparr>config_dir := True, config_file := Some Garbled\<rparr>) =
     Returned True default_techniques"
  by (simp add: save_techniques_def load_techniques_def)

theorem save_techniques_truncates_file:
  "config_file saved_defaults = Some (Json (JArr (map technique_json default_techniques))) \<and>
   save_techniques (Some Write_fails) [] saved_defaults =
     Inr (True, \<lparr>config_dir = True, config_file = Some Garbled\<rparr>)"
  by (simp add: save_techniques_def saved_defaults_def)

theorem save_techniques_outcomes_witness:
  "save_techniques None default_techniques \<lparr>config_dir = False, config_file = None\<rparr> =
     Inr (False, saved_defaults) \<and>
   save_techniques (Some Open_fails) [] saved_defaults = Inr (True, saved_defaults)"
proof -
  note A = save_techniques_outcomes
    [of default_techniques "\<lparr>config_dir = False, config_file = None\<rparr>"]
  note B = save_techniques_outcomes [of "[]" saved_defaults]
  from A have 1: "save_techniques None default_techniques
      \<lparr>config_dir = False, config_file = None\<rparr> = Inr (False, saved_defaults)"
    by (simp add: saved_defaults_def)
  from B have 2: "save_techniques (Some Open_fails) [] saved_defaults = Inr (True, saved_defaults)"
    by (simp add: saved_defaults_def)
  from 1 2 show ?thesis by simp
qed

text \<open>
  C10: for every list of techniques, a save that succeeds followed by a load gives back
  the same list: the same records, field for field, in the same order.
\<close>

theorem save_load_roundtrip:
  "\<exists>d'. save_techniques None ts d = Inr (False, d') \<and>
        load_techniques d' = Returned False ts"
  by (simp add: save_techniques_def load_techniques_def load_loop_technique_json)

theorem save_load_roundtrip_witness:
  "\<exists>d'. save_techniques None default_techniques \<lparr>config_dir = False, config_file = None\<rparr> =
          Inr (False, d') \<and>
        load_techniques d' = Returned False default_techniques"
  by (rule save_load_roundtrip)

end
